theory Spec2Isabelle
  imports Complex_Main
begin

section \<open>JavaScript numbers\<close>

text \<open>
  A JavaScript number is an IEEE 754 binary64 value: a finite value (always a rational),
  one of the two infinities, or NaN.  Every arithmetic operation on finite operands computes
  the exact result and then rounds it into the format; the rounding function is a parameter
  \<open>rnd\<close> of the model, so that a theorem can be stated for exact arithmetic
  (\<open>rnd = Fin\<close>) or for every rounding that behaves as IEEE rounding does
  (\<open>faithful\<close> below).  The sign of zero is not tracked: the only operation of the
  program that could observe it is a division by zero, and every zero divisor that the
  program can build is a difference of two values or a length, hence \<open>+0\<close>.
\<close>

datatype number = Fin rat | PosInf | NegInf | NaN

type_synonym rounding = "rat \<Rightarrow> number"

fun num_neg :: "number \<Rightarrow> number" where
  "num_neg (Fin a) = Fin (- a)"
| "num_neg PosInf = NegInf"
| "num_neg NegInf = PosInf"
| "num_neg NaN = NaN"

text \<open>The sign of a number that is not NaN, as \<open>-1\<close>, \<open>0\<close> or \<open>1\<close>.\<close>

fun num_sgn :: "number \<Rightarrow> int" where
  "num_sgn (Fin a) = (if a < 0 then - 1 else if a = 0 then 0 else 1)"
| "num_sgn PosInf = 1"
| "num_sgn NegInf = - 1"
| "num_sgn NaN = 0"

definition signed_inf :: "int \<Rightarrow> number" where
  "signed_inf s = (if s = 0 then NaN else if 0 < s then PosInf else NegInf)"

text \<open>\<open>a + b\<close>\<close>

fun num_add :: "rounding \<Rightarrow> number \<Rightarrow> number \<Rightarrow> number" where
  "num_add rnd (Fin a) (Fin b) = rnd (a + b)"
| "num_add rnd NaN b = NaN"
| "num_add rnd a NaN = NaN"
| "num_add rnd PosInf NegInf = NaN"
| "num_add rnd NegInf PosInf = NaN"
| "num_add rnd PosInf b = PosInf"
| "num_add rnd a PosInf = PosInf"
| "num_add rnd NegInf b = NegInf"
| "num_add rnd a NegInf = NegInf"

text \<open>\<open>a - b\<close>\<close>

definition num_sub :: "rounding \<Rightarrow> number \<Rightarrow> number \<Rightarrow> number" where
  "num_sub rnd a b = num_add rnd a (num_neg b)"

text \<open>\<open>a * b\<close>: an infinity times zero is NaN.\<close>

fun num_mul :: "rounding \<Rightarrow> number \<Rightarrow> number \<Rightarrow> number" where
  "num_mul rnd (Fin a) (Fin b) = rnd (a * b)"
| "num_mul rnd NaN b = NaN"
| "num_mul rnd a NaN = NaN"
| "num_mul rnd a b = signed_inf (num_sgn a * num_sgn b)"

text \<open>
  \<open>a / b\<close>: no exception is ever raised.  A finite non-zero value divided by zero is
  an infinity, zero divided by zero is NaN.
\<close>

fun num_div :: "rounding \<Rightarrow> number \<Rightarrow> number \<Rightarrow> number" where
  "num_div rnd (Fin a) (Fin b) =
     (if b = 0 then signed_inf (num_sgn (Fin a)) else rnd (a / b))"
| "num_div rnd NaN b = NaN"
| "num_div rnd a NaN = NaN"
| "num_div rnd (Fin a) b = Fin 0"
| "num_div rnd a (Fin b) = signed_inf (num_sgn a * (if b < 0 then - 1 else 1))"
| "num_div rnd a b = NaN"

text \<open>\<open>a < b\<close> and \<open>a >= b\<close>: every comparison with NaN is false.\<close>

fun num_less :: "number \<Rightarrow> number \<Rightarrow> bool" where
  "num_less (Fin a) (Fin b) = (a < b)"
| "num_less NaN b = False"
| "num_less a NaN = False"
| "num_less PosInf b = False"
| "num_less a NegInf = False"
| "num_less a b = True"

definition num_ge :: "number \<Rightarrow> number \<Rightarrow> bool" where
  "num_ge a b = (a \<noteq> NaN \<and> b \<noteq> NaN \<and> \<not> num_less a b)"

text \<open>A number used as a condition: \<open>0\<close> and NaN are falsy.\<close>

definition truthy :: "number \<Rightarrow> bool" where
  "truthy v = (v \<noteq> NaN \<and> v \<noteq> Fin 0)"

subsection \<open>What is known of the rounding\<close>

text \<open>The finite binary64 values: \<open>m * 2 ^ e\<close> with a significand of 53 bits.\<close>

definition binary64 :: "rat set" where
  "binary64 = {of_int m * 2 powi e | m e. \<bar>m\<bar> < 2 ^ 53 \<and> - 1074 \<le> e \<and> e \<le> 971}"

text \<open>
  A rounding is faithful when it never leaves an interval between two binary64 values:
  it returns a finite value between them.  In particular it returns a binary64 value
  unchanged.  Round-to-nearest, the rounding of JavaScript, is faithful, and so are the
  directed roundings.
\<close>

definition faithful :: "rounding \<Rightarrow> bool" where
  "faithful rnd =
     (\<forall>lo \<in> binary64. \<forall>hi \<in> binary64. \<forall>q. lo \<le> q \<and> q \<le> hi \<longrightarrow>
         (\<exists>v. rnd q = Fin v \<and> lo \<le> v \<and> v \<le> hi))"

section \<open>The component's data\<close>

text \<open>
  \<open>interface Point { x: number; y: number }\<close>.  The fields are \<open>pt_x\<close> and
  \<open>pt_y\<close> here, and those of the other objects are prefixed likewise, so that
  \<open>x\<close>, \<open>y\<close>, \<open>m\<close> and \<open>b\<close> stay free for variables.
\<close>

record point =
  pt_x :: number
  pt_y :: number

text \<open>The object \<open>{ m, b }\<close> that \<open>calculateRegression\<close> returns.\<close>

record fit =
  fit_m :: number
  fit_b :: number

text \<open>The tooltip state; \<open>null\<close> is \<open>None\<close>.\<close>

record tooltip =
  visible :: bool
  tip_x :: number
  tip_y :: number
  dataX :: "number option"
  dataY :: "number option"

text \<open>The state hooks of \<open>LinearRegressionChart\<close>.\<close>

record component =
  points :: "point list"
  slope :: number
  intercept :: number
  tooltip :: tooltip

definition initial_tooltip :: tooltip where
  "initial_tooltip = \<lparr>visible = False, tip_x = Fin 0, tip_y = Fin 0, dataX = None, dataY = None\<rparr>"

definition initial_component :: component where
  "initial_component = \<lparr>points = [], slope = Fin 0, intercept = Fin 0, tooltip = initial_tooltip\<rparr>"

section \<open>The data generator\<close>

text \<open>
  The arrow function that \<open>Array.from({ length: 20 }, ...)\<close> calls for the index
  \<open>i\<close>; \<open>r\<close> is the value that \<open>Math.random()\<close> returns in this call.
  The operators associate as in JavaScript:
  \<open>((2.5 * x + 5) + Math.random() * 5) - 2.5\<close>.
\<close>

definition newPoint :: "rounding \<Rightarrow> rat \<Rightarrow> nat \<Rightarrow> point" where
  "newPoint rnd r i =
     (let x = num_add rnd (Fin (of_nat i)) (Fin 1);
          y = num_sub rnd
                (num_add rnd (num_add rnd (num_mul rnd (Fin (5 / 2)) x) (Fin 5))
                   (num_mul rnd (Fin r) (Fin 5)))
                (Fin (5 / 2))
      in \<lparr>pt_x = x, pt_y = y\<rparr>)"

text \<open>
  \<open>generateData\<close> builds the 20 points in the order of the indices and replaces the
  sample of the state (\<open>setPoints\<close>).  \<open>random i\<close> is the draw of
  \<open>Math.random()\<close> made for the index \<open>i\<close>.
\<close>

definition generateData :: "rounding \<Rightarrow> (nat \<Rightarrow> rat) \<Rightarrow> component \<Rightarrow> component" where
  "generateData rnd random st =
     (let newPoints = map (\<lambda>i. newPoint rnd (random i) i) [0..<20]
      in st\<lparr>points := newPoints\<rparr>)"

section \<open>The regression\<close>

text \<open>
  \<open>d3.sum(values, valueof)\<close> of the d3-array library: starting from \<open>0\<close>, it adds the
  value of each element in order, and skips every value that is falsy (\<open>0\<close> or NaN).
\<close>

definition d3_sum :: "rounding \<Rightarrow> 'a list \<Rightarrow> ('a \<Rightarrow> number) \<Rightarrow> number" where
  "d3_sum rnd values valueof =
     foldl (\<lambda>sum d. let v = valueof d in if truthy v then num_add rnd sum v else sum)
       (Fin 0) values"

text \<open>
  \<open>calculateRegression\<close> computes the two coefficients, stores them in the state
  (\<open>setSlope\<close>, \<open>setIntercept\<close>) and returns them.
\<close>

definition calculateRegression :: "rounding \<Rightarrow> point list \<Rightarrow> component \<Rightarrow> fit \<times> component" where
  "calculateRegression rnd data st =
     (let n = Fin (of_nat (length data));
          sumX = d3_sum rnd data pt_x;
          sumY = d3_sum rnd data pt_y;
          sumXY = d3_sum rnd data (\<lambda>d. num_mul rnd (pt_x d) (pt_y d));
          sumXX = d3_sum rnd data (\<lambda>d. num_mul rnd (pt_x d) (pt_x d));
          m = num_div rnd
                (num_sub rnd (num_mul rnd n sumXY) (num_mul rnd sumX sumY))
                (num_sub rnd (num_mul rnd n sumXX) (num_mul rnd sumX sumX));
          b = num_div rnd (num_sub rnd sumY (num_mul rnd m sumX)) n
      in (\<lparr>fit_m = m, fit_b = b\<rparr>, st\<lparr>slope := m, intercept := b\<rparr>))"

text \<open>A sample of finite points, written as pairs.\<close>

definition sample :: "(rat \<times> rat) list \<Rightarrow> point list" where
  "sample ps = map (\<lambda>(u, v). \<lparr>pt_x = Fin u, pt_y = Fin v\<rparr>) ps"

text \<open>
  The coefficients as the specification writes them, in exact arithmetic:
  \<open>slope = (n \<Sigma>xy - \<Sigma>x \<Sigma>y) / (n \<Sigma>x\<^sup>2 - (\<Sigma>x)\<^sup>2)\<close> and
  \<open>intercept = (\<Sigma>y - slope \<Sigma>x) / n\<close>.
\<close>

definition ols_slope :: "(rat \<times> rat) list \<Rightarrow> rat" where
  "ols_slope ps =
     (of_nat (length ps) * (\<Sum>p\<leftarrow>ps. fst p * snd p) - (\<Sum>p\<leftarrow>ps. fst p) * (\<Sum>p\<leftarrow>ps. snd p))
     / (of_nat (length ps) * (\<Sum>p\<leftarrow>ps. fst p * fst p) - (\<Sum>p\<leftarrow>ps. fst p) * (\<Sum>p\<leftarrow>ps. fst p))"

definition ols_intercept :: "(rat \<times> rat) list \<Rightarrow> rat" where
  "ols_intercept ps = ((\<Sum>p\<leftarrow>ps. snd p) - ols_slope ps * (\<Sum>p\<leftarrow>ps. fst p)) / of_nat (length ps)"


text \<open>A sample is degenerate when all its x values are identical.\<close>

definition degenerate :: "(rat \<times> rat) list \<Rightarrow> bool" where
  "degenerate ps = (\<forall>p \<in> set ps. \<forall>q \<in> set ps. fst p = fst q)"

text \<open>The denominator of the slope, as a function of the x values.\<close>

definition spread :: "rat list \<Rightarrow> rat" where
  "spread xs = of_nat (length xs) * (\<Sum>u\<leftarrow>xs. u * u) - (\<Sum>u\<leftarrow>xs. u) * (\<Sum>u\<leftarrow>xs. u)"

section \<open>The tooltip\<close>

text \<open>The two fields of a mouse event that the handlers read.\<close>

record mouse_event =
  clientX :: number
  clientY :: number

text \<open>The three handlers that the chart effect attaches to every circle; \<open>d\<close> is
  the point bound to the circle.\<close>

definition mouseenter :: "mouse_event \<Rightarrow> point \<Rightarrow> component \<Rightarrow> component" where
  "mouseenter event d st =
     st\<lparr>tooltip := \<lparr>visible = True, tip_x = clientX event, tip_y = clientY event,
                      dataX = Some (pt_x d), dataY = Some (pt_y d)\<rparr>\<rparr>"

definition mousemove :: "mouse_event \<Rightarrow> component \<Rightarrow> component" where
  "mousemove event st =
     st\<lparr>tooltip := (tooltip st)\<lparr>tip_x := clientX event, tip_y := clientY event\<rparr>\<rparr>"

definition mouseleave :: "component \<Rightarrow> component" where
  "mouseleave st =
     st\<lparr>tooltip := \<lparr>visible = False, tip_x = Fin 0, tip_y = Fin 0, dataX = None, dataY = None\<rparr>\<rparr>"

subsection \<open>\<open>Number.prototype.toFixed\<close>\<close>

definition digit_char :: "nat \<Rightarrow> char" where
  "digit_char k = ''0123456789'' ! k"

text \<open>The decimal digits of a natural number, without leading zeros.\<close>

fun digits :: "nat \<Rightarrow> string" where
  "digits n = (if n < 10 then [digit_char n] else digits (n div 10) @ [digit_char (n mod 10)])"

declare digits.simps [simp del]

text \<open>
  \<open>v.toFixed(2)\<close>, after the language standard.  A value that is not finite is printed
  by name.  Otherwise the sign is split off, and \<open>n\<close> is the integer for which
  \<open>n / 100\<close> is nearest to the magnitude, the larger one of two; its digits are padded
  with zeros to three at least, and the point is put before the last two.  A magnitude of
  \<open>10\<^sup>2\<^sup>1\<close> or more is printed in the exponent notation of \<open>Number::toString\<close>,
  which is the parameter \<open>toString\<close> here.
\<close>

definition toFixed2 :: "(rat \<Rightarrow> string) \<Rightarrow> number \<Rightarrow> string" where
  "toFixed2 toString v =
     (case v of
        NaN \<Rightarrow> ''NaN''
      | PosInf \<Rightarrow> ''Infinity''
      | NegInf \<Rightarrow> ''-Infinity''
      | Fin x \<Rightarrow>
          (let s = (if x < 0 then ''-'' else '''');
               x = \<bar>x\<bar>
           in if 10 ^ 21 \<le> x then s @ toString x
              else
                let n = nat \<lfloor>x * 100 + 1 / 2\<rfloor>;
                    m = digits n;
                    m = (if length m \<le> 2 then replicate (3 - length m) (CHR ''0'') @ m else m);
                    k = length m
                in s @ take (k - 2) m @ ''.'' @ drop (k - 2) m))"

text \<open>
  The overlay that the component renders when the tooltip is visible: its position and its
  two lines.  \<open>tooltip.dataX?.toFixed(2)\<close> is \<open>undefined\<close> for \<open>null\<close> and then
  renders as nothing.
\<close>

record overlay =
  ov_top :: number
  ov_left :: number
  ov_X :: string
  ov_Y :: string

definition tooltip_overlay :: "rounding \<Rightarrow> (rat \<Rightarrow> string) \<Rightarrow> tooltip \<Rightarrow> overlay option" where
  "tooltip_overlay rnd toString t =
     (if visible t
      then Some \<lparr>ov_top = num_add rnd (tip_y t) (Fin 10),
                 ov_left = num_add rnd (tip_x t) (Fin 10),
                 ov_X = ''X: '' @ (case dataX t of None \<Rightarrow> '''' | Some v \<Rightarrow> toFixed2 toString v),
                 ov_Y = ''Y: '' @ (case dataY t of None \<Rightarrow> '''' | Some v \<Rightarrow> toFixed2 toString v)\<rparr>
      else None)"

section \<open>The page\<close>

text \<open>
  What the component keeps outside its state hooks: the \<open>svg\<close> element behind
  \<open>svgRef\<close> with the scene drawn into it, the path elements that the runs of the chart
  effect have created, the callbacks registered with \<open>setTimeout\<close> that have not run
  yet, and the files handed to the browser for download.

  A path element carries the data bound to it (\<open>datum\<close>) and its attribute \<open>d\<close>,
  kept as the list of points to which the line generator was applied.  A path element is
  named by its index in \<open>paths\<close>: the callbacks of a run keep hold of the path of that
  run, whether or not it is still part of the \<open>svg\<close>.  The scene is what the last run
  of the effect has put into the \<open>svg\<close>: one circle per point, each with its point
  bound to it, and the path of the line.  Axes, pixel coordinates, colours and the zoom
  behaviour are not modelled.
\<close>

record svg_path =
  datum :: "point list"
  attr_d :: "point list option"

record scene =
  circles :: "point list"
  line_path :: nat

record timer =
  due :: nat
  target :: nat
  currentData :: "point list"

record link =
  download :: string
  href :: string

record app =
  hooks :: component
  mounted :: bool
  svg :: "scene option"
  paths :: "svg_path list"
  timers :: "timer list"
  clock :: nat
  downloads :: "link list"

definition initial_app :: app where
  "initial_app = \<lparr>hooks = initial_component, mounted = False, svg = None, paths = [],
                    timers = [], clock = 0, downloads = []\<rparr>"

datatype error = RangeError

subsection \<open>The library functions of the chart effect\<close>

text \<open>
  \<open>d3.max(values, valueof)\<close>: the first value that compares to itself starts the
  maximum, a later value replaces it when it is greater; \<open>undefined\<close> (\<open>None\<close>) when
  there is no such value.
\<close>

definition d3_max :: "'a list \<Rightarrow> ('a \<Rightarrow> number) \<Rightarrow> number option" where
  "d3_max values valueof =
     foldl (\<lambda>mx d. let v = valueof d in
              (case mx of
                 None \<Rightarrow> if num_ge v v then Some v else None
               | Some m \<Rightarrow> if num_less m v then Some v else mx))
       None values"

text \<open>\<open>v | 0\<close> on an integer: the value modulo \<open>2\<^sup>3\<^sup>2\<close>, read as signed.\<close>

definition to_int32 :: "int \<Rightarrow> int" where
  "to_int32 k = (k + 2 ^ 31) mod 2 ^ 32 - 2 ^ 31"

text \<open>
  \<open>d3.range(start, stop, step)\<close>: with
  \<open>n = Math.max(0, Math.ceil((stop - start) / step)) | 0\<close> it allocates
  \<open>new Array(n)\<close>, which throws a RangeError for a negative \<open>n\<close>, and fills it with
  \<open>start + i * step\<close>.  A quotient that is not finite gives \<open>n = 0\<close>.
\<close>

definition d3_range :: "rounding \<Rightarrow> number \<Rightarrow> number \<Rightarrow> number \<Rightarrow> error + number list" where
  "d3_range rnd start stop step =
     (let n = (case num_div rnd (num_sub rnd stop start) step of
                 Fin q \<Rightarrow> to_int32 (max 0 \<lceil>q\<rceil>)
               | _ \<Rightarrow> 0)
      in if n < 0 then Inl RangeError
         else Inr (map (\<lambda>i. num_add rnd start (num_mul rnd (Fin (of_nat i)) step)) [0..<nat n]))"

subsection \<open>The chart effect\<close>

text \<open>
  The samples of the regression line:
  \<open>d3.range(0, d3.max(points, d => d.x)! + 1, 0.5).map(x => ({ x, y: m * x + b }))\<close>.
  \<open>undefined + 1\<close> is NaN.
\<close>

definition linePoints :: "rounding \<Rightarrow> point list \<Rightarrow> fit \<Rightarrow> error + point list" where
  "linePoints rnd pts f =
     (let stop = (case d3_max pts pt_x of None \<Rightarrow> NaN | Some v \<Rightarrow> num_add rnd v (Fin 1))
      in case d3_range rnd (Fin 0) stop (Fin (1 / 2)) of
           Inl e \<Rightarrow> Inl e
         | Inr xs \<Rightarrow>
             Inr (map (\<lambda>x. \<lparr>pt_x = x, pt_y = num_add rnd (num_mul rnd (fit_m f) x) (fit_b f)\<rparr>) xs))"

text \<open>
  The effect with the dependency \<open>[points]\<close>.  It returns at once on an empty sample.
  Otherwise it computes the fit, removes everything from the \<open>svg\<close>, draws the circles
  of the sample, appends a new path with the empty datum, and registers one callback per
  line sample: the callback \<open>i\<close> is due after \<open>i * 50\<close> milliseconds and holds
  \<open>linePoints.slice(0, i + 1)\<close> and the path of this run.  Callbacks registered earlier
  stay registered.  An exception leaves the effect, and the component is lost.
\<close>

definition drawChart :: "rounding \<Rightarrow> app \<Rightarrow> error + app" where
  "drawChart rnd a =
     (if points (hooks a) = [] then Inr a
      else
        let (f, st) = calculateRegression rnd (points (hooks a)) (hooks a)
        in case linePoints rnd (points (hooks a)) f of
             Inl e \<Rightarrow> Inl e
           | Inr line \<Rightarrow>
               let path = length (paths a)
               in Inr (a\<lparr>hooks := st,
                         svg := Some \<lparr>circles = points (hooks a), line_path = path\<rparr>,
                         paths := paths a @ [\<lparr>datum = [], attr_d = None\<rparr>],
                         timers := timers a @
                           map (\<lambda>i. \<lparr>due = clock a + i * 50, target = path,
                                      currentData = take (i + 1) line\<rparr>)
                             [0..<length line]\<rparr>))"

text \<open>The callback of a timer: \<open>path.datum(currentData).attr("d", lineGenerator)\<close>.\<close>

definition fire :: "timer \<Rightarrow> svg_path list \<Rightarrow> svg_path list" where
  "fire t ps =
     (if target t < length ps
      then ps[target t := \<lparr>datum = currentData t, attr_d = Some (currentData t)\<rparr>]
      else ps)"

subsection \<open>The export\<close>

text \<open>
  \<open>downloadPNG\<close> returns nothing.  When \<open>svgRef.current\<close> is set it starts
  \<open>toPng\<close> on the element, and when that promise is fulfilled with a data URL a link
  named \<open>chart.png\<close> is clicked.  There is no handler for a rejected promise.
  \<open>toPng\<close> is a function of the html-to-image library and a parameter here: applied to
  the content of the \<open>svg\<close> it gives the data URL, or \<open>None\<close> when the promise is
  not fulfilled.
\<close>

definition downloadPNG :: "(scene option \<Rightarrow> string option) \<Rightarrow> app \<Rightarrow> unit \<times> app" where
  "downloadPNG toPng a =
     (if mounted a
      then (case toPng (svg a) of
              Some dataUrl \<Rightarrow>
                ((), a\<lparr>downloads := downloads a @ [\<lparr>download = ''chart.png'', href = dataUrl\<rparr>]\<rparr>)
            | None \<Rightarrow> ((), a))
      else ((), a))"

subsection \<open>Events\<close>

text \<open>
  What can happen to the mounted component.  A click on \<open>Generate Data\<close> carries the
  draws of \<open>Math.random()\<close>; \<open>generateData\<close> replaces the sample, and since the new
  array differs from the old one React runs the chart effect after rendering.  Time
  passing runs the callbacks that become due, in the order of their due times, and in the
  order of registration among equal ones.  The mouse events name a circle of the scene by
  its position; an event on a circle that does not exist does not happen.  A click on
  \<open>Download as PNG\<close> carries the behaviour of \<open>toPng\<close>.
\<close>

datatype event =
    ClickGenerate "nat \<Rightarrow> rat"
  | Elapse nat
  | MouseEnter nat mouse_event
  | MouseMove nat mouse_event
  | MouseLeave nat
  | ClickDownload "scene option \<Rightarrow> string option"

definition elapse :: "nat \<Rightarrow> app \<Rightarrow> app" where
  "elapse ms a =
     (let now = clock a + ms;
          ready = sort_key due (filter (\<lambda>t. due t \<le> now) (timers a))
      in a\<lparr>clock := now,
           paths := foldl (\<lambda>ps t. fire t ps) (paths a) ready,
           timers := filter (\<lambda>t. \<not> due t \<le> now) (timers a)\<rparr>)"

definition on_circle :: "nat \<Rightarrow> (point \<Rightarrow> component \<Rightarrow> component) \<Rightarrow> app \<Rightarrow> app" where
  "on_circle i handler a =
     (case svg a of
        None \<Rightarrow> a
      | Some sc \<Rightarrow> if i < length (circles sc) then a\<lparr>hooks := handler (circles sc ! i) (hooks a)\<rparr> else a)"

fun step :: "rounding \<Rightarrow> event \<Rightarrow> app \<Rightarrow> error + app" where
  "step rnd (ClickGenerate random) a = drawChart rnd (a\<lparr>hooks := generateData rnd random (hooks a)\<rparr>)"
| "step rnd (Elapse ms) a = Inr (elapse ms a)"
| "step rnd (MouseEnter i event) a = Inr (on_circle i (mouseenter event) a)"
| "step rnd (MouseMove i event) a = Inr (on_circle i (\<lambda>d. mousemove event) a)"
| "step rnd (MouseLeave i) a = Inr (on_circle i (\<lambda>d. mouseleave) a)"
| "step rnd (ClickDownload toPng) a = Inr (snd (downloadPNG toPng a))"



section \<open>Notions of the specification\<close>

text \<open>
  A number formatted to two decimal places: the sign, the digits of the whole part, a point
  and two digits, for the multiple of \<open>1/100\<close> nearest to the magnitude.
\<close>

definition two_decimals :: "rat \<Rightarrow> string" where
  "two_decimals x =
     (let n = nat \<lfloor>\<bar>x\<bar> * 100 + 1 / 2\<rfloor>
      in (if x < 0 then ''-'' else '''') @ digits (n div 100) @ ''.''
           @ [digit_char (n div 10 mod 10), digit_char (n mod 10)])"

text \<open>A mounted page with a scene of two circles, for a worked example.\<close>

definition hover_app :: app where
  "hover_app = initial_app\<lparr>mounted := True,
     svg := Some \<lparr>circles = sample [(1, 15 / 2), (2, 1249 / 100)], line_path = 0\<rparr>\<rparr>"





text \<open>The x values of a generated sample.\<close>

definition xs20 :: "number list" where
  "xs20 = map (\<lambda>k. Fin (of_nat k)) [1..<21]"


section \<open>Properties of the rounding\<close>

lemma int_in_binary64: "\<bar>k\<bar> < 2 ^ 53 \<Longrightarrow> (of_int k :: rat) \<in> binary64"
proof -
  assume k: "\<bar>k\<bar> < 2 ^ 53"
  have "(of_int k :: rat) = of_int k * 2 powi 0" by simp
  moreover have "- 1074 \<le> (0::int) \<and> (0::int) \<le> 971" by simp
  ultimately show ?thesis unfolding binary64_def using k by blast
qed

lemma faithful_fixes: "faithful rnd \<Longrightarrow> q \<in> binary64 \<Longrightarrow> rnd q = Fin q"
proof -
  assume f: "faithful rnd" and q: "q \<in> binary64"
  from f q have "\<exists>v. rnd q = Fin v \<and> q \<le> v \<and> v \<le> q"
    unfolding faithful_def by blast
  then show ?thesis by auto
qed

lemma faithful_int: "faithful rnd \<Longrightarrow> \<bar>k\<bar> < 2 ^ 53 \<Longrightarrow> rnd (of_int k) = Fin (of_int k)"
  by (rule faithful_fixes) (simp_all add: int_in_binary64)

lemma faithful_exact: "faithful Fin"
  unfolding faithful_def by simp

section \<open>The worked example\<close>

text \<open>
  C2. On the sample \<open>[(1,3),(2,5),(3,7)]\<close> the estimator returns the slope \<open>2\<close> and the
  intercept \<open>1\<close> exactly, and not only in exact arithmetic: under every faithful rounding,
  so in binary64 arithmetic too, since each intermediate value is a small integer.
\<close>

theorem calculateRegression_example:
  assumes "faithful rnd"
  shows "fst (calculateRegression rnd (sample [(1, 3), (2, 5), (3, 7)]) st)
           = \<lparr>fit_m = Fin 2, fit_b = Fin 1\<rparr>"
proof -
  have r: "rnd (of_int k) = Fin (of_int k)" if "\<bar>k\<bar> < 2 ^ 53" for k
    using assms that by (rule faithful_int)
  note vals = r[of 0, simplified] r[of 1, simplified] r[of 2, simplified] r[of 3, simplified]
    r[of 4, simplified] r[of 5, simplified] r[of 6, simplified] r[of 8, simplified]
    r[of 9, simplified] r[of 10, simplified] r[of 12, simplified] r[of 13, simplified]
    r[of 14, simplified] r[of 15, simplified] r[of 21, simplified] r[of 34, simplified]
    r[of 36, simplified] r[of 42, simplified] r[of 90, simplified] r[of 102, simplified]
  show ?thesis
    by (simp add: calculateRegression_def sample_def d3_sum_def truthy_def num_sub_def Let_def vals)
qed

theorem calculateRegression_example_witness:
  "faithful Fin \<and>
   fst (calculateRegression Fin (sample [(1, 3), (2, 5), (3, 7)]) initial_component)
     = \<lparr>fit_m = Fin 2, fit_b = Fin 1\<rparr>"
  using calculateRegression_example [OF faithful_exact, of initial_component]
  by (simp add: faithful_exact)

section \<open>The regression in exact arithmetic\<close>

lemma foldl_sum_exact:
  "(\<forall>d \<in> set xs. f d = Fin (g d)) \<Longrightarrow>
   foldl (\<lambda>sum d. let v = f d in if truthy v then num_add Fin sum v else sum) (Fin a) xs
     = Fin (a + sum_list (map g xs))"
  by (induction xs arbitrary: a) (simp_all add: truthy_def Let_def)

lemma d3_sum_exact:
  "(\<forall>d \<in> set xs. f d = Fin (g d)) \<Longrightarrow> d3_sum Fin xs f = Fin (sum_list (map g xs))"
  unfolding d3_sum_def using foldl_sum_exact [of xs f g 0] by simp

lemma d3_sum_sample:
  "d3_sum Fin (sample ps) pt_x = Fin (\<Sum>p\<leftarrow>ps. fst p)"
  "d3_sum Fin (sample ps) pt_y = Fin (\<Sum>p\<leftarrow>ps. snd p)"
  "d3_sum Fin (sample ps) (\<lambda>d. num_mul Fin (pt_x d) (pt_y d)) = Fin (\<Sum>p\<leftarrow>ps. fst p * snd p)"
  "d3_sum Fin (sample ps) (\<lambda>d. num_mul Fin (pt_x d) (pt_x d)) = Fin (\<Sum>p\<leftarrow>ps. fst p * fst p)"
proof -
  have "d3_sum Fin (sample ps) pt_x = Fin (sum_list (map (\<lambda>d. case pt_x d of Fin u \<Rightarrow> u | _ \<Rightarrow> 0) (sample ps)))"
    by (rule d3_sum_exact) (auto simp: sample_def)
  then show "d3_sum Fin (sample ps) pt_x = Fin (\<Sum>p\<leftarrow>ps. fst p)"
    by (simp add: sample_def comp_def case_prod_unfold)
  have "d3_sum Fin (sample ps) pt_y = Fin (sum_list (map (\<lambda>d. case pt_y d of Fin u \<Rightarrow> u | _ \<Rightarrow> 0) (sample ps)))"
    by (rule d3_sum_exact) (auto simp: sample_def)
  then show "d3_sum Fin (sample ps) pt_y = Fin (\<Sum>p\<leftarrow>ps. snd p)"
    by (simp add: sample_def comp_def case_prod_unfold)
  have "d3_sum Fin (sample ps) (\<lambda>d. num_mul Fin (pt_x d) (pt_y d))
         = Fin (sum_list (map (\<lambda>d. case num_mul Fin (pt_x d) (pt_y d) of Fin u \<Rightarrow> u | _ \<Rightarrow> 0) (sample ps)))"
    by (rule d3_sum_exact) (auto simp: sample_def)
  then show "d3_sum Fin (sample ps) (\<lambda>d. num_mul Fin (pt_x d) (pt_y d)) = Fin (\<Sum>p\<leftarrow>ps. fst p * snd p)"
    by (simp add: sample_def comp_def case_prod_unfold)
  have "d3_sum Fin (sample ps) (\<lambda>d. num_mul Fin (pt_x d) (pt_x d))
         = Fin (sum_list (map (\<lambda>d. case num_mul Fin (pt_x d) (pt_x d) of Fin u \<Rightarrow> u | _ \<Rightarrow> 0) (sample ps)))"
    by (rule d3_sum_exact) (auto simp: sample_def)
  then show "d3_sum Fin (sample ps) (\<lambda>d. num_mul Fin (pt_x d) (pt_x d)) = Fin (\<Sum>p\<leftarrow>ps. fst p * fst p)"
    by (simp add: sample_def comp_def case_prod_unfold)
qed

lemma sum_sq_diff:
  "(\<Sum>u\<leftarrow>xs. (x - u) * (x - u)) =
     of_nat (length xs) * (x * x) - 2 * x * (\<Sum>u\<leftarrow>xs. u) + (\<Sum>u\<leftarrow>xs. u * u)" for x :: rat
proof (induction xs)
  case Nil
  show ?case by simp
next
  case (Cons w xs)
  have "(\<Sum>u\<leftarrow>w # xs. (x - u) * (x - u)) = (x - w) * (x - w) + (\<Sum>u\<leftarrow>xs. (x - u) * (x - u))"
    by simp
  also have "\<dots> = (x - w) * (x - w)
      + (of_nat (length xs) * (x * x) - 2 * x * (\<Sum>u\<leftarrow>xs. u) + (\<Sum>u\<leftarrow>xs. u * u))"
    by (simp only: Cons.IH)
  also have "\<dots> = of_nat (length (w # xs)) * (x * x) - 2 * x * (\<Sum>u\<leftarrow>w # xs. u)
      + (\<Sum>u\<leftarrow>w # xs. u * u)"
    by (simp add: algebra_simps)
  finally show ?case .
qed

lemma spread_Cons: "spread (x # xs) = spread xs + (\<Sum>u\<leftarrow>xs. (x - u) * (x - u))"
  unfolding spread_def sum_sq_diff by (simp add: algebra_simps)

lemma sum_sq_nonneg: "0 \<le> (\<Sum>u\<leftarrow>xs. (x - u) * (x - u))" for x :: rat
  by (rule sum_list_nonneg) auto

lemma spread_nonneg: "0 \<le> spread xs"
proof (induction xs)
  case Nil
  show ?case by (simp add: spread_def)
next
  case (Cons x xs)
  then show ?case using sum_sq_nonneg [of x xs] by (simp add: spread_Cons)
qed

lemma sum_sq_pos: "v \<in> set xs \<Longrightarrow> v \<noteq> x \<Longrightarrow> 0 < (\<Sum>u\<leftarrow>xs. (x - u) * (x - u))" for x :: rat
proof (induction xs)
  case Nil
  then show ?case by simp
next
  case (Cons w xs)
  show ?case
  proof (cases "v = w")
    case True
    with Cons.prems have "0 < (x - w) * (x - w)" by (auto simp: zero_less_mult_iff neq_iff)
    then show ?thesis using sum_sq_nonneg [of x xs] by simp
  next
    case False
    with Cons have "0 < (\<Sum>u\<leftarrow>xs. (x - u) * (x - u))" by simp
    moreover have "0 \<le> (x - w) * (x - w)" by simp
    moreover have "(\<Sum>u\<leftarrow>w # xs. (x - u) * (x - u))
        = (x - w) * (x - w) + (\<Sum>u\<leftarrow>xs. (x - u) * (x - u))" by simp
    ultimately show ?thesis by linarith
  qed
qed

lemma spread_pos:
  assumes "a \<in> set xs" "b \<in> set xs" "a \<noteq> b"
  shows "0 < spread xs"
proof (cases xs)
  case Nil
  with assms show ?thesis by simp
next
  case (Cons x ys)
  have "\<exists>v \<in> set ys. v \<noteq> x"
  proof (rule ccontr)
    assume "\<not> (\<exists>v \<in> set ys. v \<noteq> x)"
    then have "\<forall>v \<in> set xs. v = x" using Cons by auto
    then have all: "\<forall>v \<in> set xs. v = x" .
    have "a = x" using all assms(1) by (rule bspec)
    moreover have "b = x" using all assms(2) by (rule bspec)
    ultimately show False using assms(3) by simp
  qed
  then obtain v where "v \<in> set ys" "v \<noteq> x" by blast
  then have "0 < (\<Sum>u\<leftarrow>ys. (x - u) * (x - u))" by (rule sum_sq_pos)
  then show ?thesis using spread_nonneg [of ys] by (simp add: Cons spread_Cons)
qed


lemma spread_fst: "spread (map fst ps) =
  of_nat (length ps) * (\<Sum>p\<leftarrow>ps. fst p * fst p) - (\<Sum>p\<leftarrow>ps. fst p) * (\<Sum>p\<leftarrow>ps. fst p)"
  by (simp add: spread_def comp_def)

lemma not_degenerate_spread: "\<not> degenerate ps \<Longrightarrow> 0 < spread (map fst ps)"
proof -
  assume "\<not> degenerate ps"
  then obtain p q where "p \<in> set ps" "q \<in> set ps" "fst p \<noteq> fst q"
    unfolding degenerate_def by blast
  then have "fst p \<in> set (map fst ps)" "fst q \<in> set (map fst ps)" "fst p \<noteq> fst q"
    by simp_all
  then show ?thesis by (rule spread_pos)
qed

lemma regression_exact:
  assumes "ps \<noteq> []" and "spread (map fst ps) \<noteq> 0"
  shows "fst (calculateRegression Fin (sample ps) st)
           = \<lparr>fit_m = Fin (ols_slope ps), fit_b = Fin (ols_intercept ps)\<rparr>"
proof -
  have n: "(of_nat (length ps) :: rat) \<noteq> 0" using assms(1) by simp
  have len: "length (sample ps) = length ps" by (simp add: sample_def)
  show ?thesis
    using n assms(2) unfolding spread_fst
    by (simp add: calculateRegression_def Let_def d3_sum_sample len num_sub_def
        ols_slope_def ols_intercept_def)
qed



lemma ols_first_equation:
  assumes "ps \<noteq> []"
  shows "(\<Sum>p\<leftarrow>ps. snd p) = ols_slope ps * (\<Sum>p\<leftarrow>ps. fst p) + of_nat (length ps) * ols_intercept ps"
proof -
  have "(of_nat (length ps) :: rat) \<noteq> 0" using assms by simp
  then show ?thesis by (simp add: ols_intercept_def)
qed






text \<open>
  C10. For every non-empty sample of finite points whose x values are not all identical, the
  slope \<open>m\<close> and the intercept \<open>b\<close> that the estimator returns satisfy, in exact
  arithmetic, \<open>\<Sigma>y = m \<Sigma>x + n b\<close>: the fitted line passes through the point of the means.
\<close>

theorem calculateRegression_through_mean:
  assumes "ps \<noteq> []" and "\<not> degenerate ps"
  shows "\<exists>m b. fst (calculateRegression Fin (sample ps) st) = \<lparr>fit_m = Fin m, fit_b = Fin b\<rparr>
       \<and> (\<Sum>p\<leftarrow>ps. snd p) = m * (\<Sum>p\<leftarrow>ps. fst p) + of_nat (length ps) * b
       \<and> m * ((\<Sum>p\<leftarrow>ps. fst p) / of_nat (length ps)) + b = (\<Sum>p\<leftarrow>ps. snd p) / of_nat (length ps)"
proof -
  have s: "spread (map fst ps) \<noteq> 0" using not_degenerate_spread [OF assms(2)] by simp
  have n: "(of_nat (length ps) :: rat) \<noteq> 0" using assms(1) by simp
  have e: "(\<Sum>p\<leftarrow>ps. snd p) = ols_slope ps * (\<Sum>p\<leftarrow>ps. fst p) + of_nat (length ps) * ols_intercept ps"
    by (rule ols_first_equation [OF assms(1)])
  have "ols_slope ps * ((\<Sum>p\<leftarrow>ps. fst p) / of_nat (length ps)) + ols_intercept ps
      = (ols_slope ps * (\<Sum>p\<leftarrow>ps. fst p) + of_nat (length ps) * ols_intercept ps) / of_nat (length ps)"
    using n by (simp add: field_simps)
  also have "\<dots> = (\<Sum>p\<leftarrow>ps. snd p) / of_nat (length ps)" using e by simp
  finally show ?thesis using regression_exact [OF assms(1) s] e by blast
qed

theorem calculateRegression_through_mean_witness:
  "[(0, 1), (2, 2), (4, 6)] \<noteq> ([] :: (rat \<times> rat) list) \<and> \<not> degenerate [(0, 1), (2, 2), (4, 6)]
   \<and> (\<exists>m b. fst (calculateRegression Fin (sample [(0, 1), (2, 2), (4, 6)]) initial_component)
                = \<lparr>fit_m = Fin m, fit_b = Fin b\<rparr>
          \<and> 9 = m * 6 + 3 * b \<and> m * 2 + b = 3)"
proof -
  have d: "\<not> degenerate [(0, 1), (2, 2), (4, 6 :: rat)]" by (simp add: degenerate_def)
  have n: "[(0, 1), (2, 2), (4, 6)] \<noteq> ([] :: (rat \<times> rat) list)" by simp
  show ?thesis
    using calculateRegression_through_mean [OF n d, of initial_component] d by simp
qed

section \<open>Identical x values\<close>







section \<open>The generated sample\<close>

lemma half_in_binary64: "\<bar>k\<bar> < 2 ^ 53 \<Longrightarrow> (of_int k / 2 :: rat) \<in> binary64"
proof -
  assume k: "\<bar>k\<bar> < 2 ^ 53"
  have "(of_int k / 2 :: rat) = of_int k * 2 powi (- 1)" by (simp add: power_int_minus)
  moreover have "- 1074 \<le> (- 1::int) \<and> (- 1::int) \<le> 971" by simp
  ultimately show ?thesis unfolding binary64_def using k by blast
qed

lemma faithful_between:
  "faithful rnd \<Longrightarrow> lo \<in> binary64 \<Longrightarrow> hi \<in> binary64 \<Longrightarrow> lo \<le> q \<Longrightarrow> q \<le> hi
     \<Longrightarrow> \<exists>v. rnd q = Fin v \<and> lo \<le> v \<and> v \<le> hi"
  unfolding faithful_def by blast

lemma newPoint_x:
  assumes "faithful rnd" and "i < 20"
  shows "pt_x (newPoint rnd r i) = Fin (of_nat (Suc i))"
proof -
  have "rnd (of_int (int i + 1)) = Fin (of_int (int i + 1))"
    using assms by (intro faithful_int) auto
  then show ?thesis by (simp add: newPoint_def Let_def add.commute)
qed

lemma newPoint_y:
  assumes f: "faithful rnd" and i: "i < 20" and r: "0 \<le> r" "r < 1"
  shows "\<exists>y. pt_y (newPoint rnd r i) = Fin y
            \<and> \<bar>y - (5 / 2 * of_nat (Suc i) + 5)\<bar> \<le> 5 / 2"
proof -
  define a :: rat where "a = of_nat (Suc i)"
  define A :: rat where "A = 5 / 2 * a + 5"
  have half: "rnd (of_int k / 2) = Fin (of_int k / 2)" if "\<bar>k\<bar> < 2 ^ 53" for k
    using f half_in_binary64 [OF that] by (rule faithful_fixes)
  have x: "num_add rnd (Fin (of_nat i)) (Fin 1) = Fin a"
    using newPoint_x [OF f i, of r] by (simp add: newPoint_def Let_def a_def)
  have "5 / 2 * a = of_int (5 * (int i + 1)) / 2" by (simp add: a_def)
  moreover have "\<bar>5 * (int i + 1)\<bar> < 2 ^ 53" using i by simp
  ultimately have t1: "rnd (5 / 2 * a) = Fin (5 / 2 * a)" using half by metis
  have "A = of_int (5 * (int i + 1) + 10) / 2" by (simp add: A_def a_def)
  moreover have "\<bar>5 * (int i + 1) + 10\<bar> < 2 ^ 53" using i by simp
  ultimately have A_in: "A \<in> binary64" using half_in_binary64 by metis
  then have t2: "rnd (5 / 2 * a + 5) = Fin A" using f faithful_fixes by (simp add: A_def)
  have "A + 5 = of_int (5 * (int i + 1) + 20) / 2" by (simp add: A_def a_def)
  moreover have "\<bar>5 * (int i + 1) + 20\<bar> < 2 ^ 53" using i by simp
  ultimately have A5_in: "A + 5 \<in> binary64" using half_in_binary64 by metis
  have "A - 5 / 2 = of_int (5 * (int i + 1) + 5) / 2" by (simp add: A_def a_def)
  moreover have "\<bar>5 * (int i + 1) + 5\<bar> < 2 ^ 53" using i by simp
  ultimately have Alo_in: "A - 5 / 2 \<in> binary64" using half_in_binary64 by metis
  have "A + 5 / 2 = of_int (5 * (int i + 1) + 15) / 2" by (simp add: A_def a_def)
  moreover have "\<bar>5 * (int i + 1) + 15\<bar> < 2 ^ 53" using i by simp
  ultimately have Ahi_in: "A + 5 / 2 \<in> binary64" using half_in_binary64 by metis
  have z: "(0::rat) \<in> binary64" using int_in_binary64 [of 0] by simp
  have five: "(5::rat) \<in> binary64" using int_in_binary64 [of 5] by simp
  have "0 \<le> r * 5" "r * 5 \<le> 5" using r by simp_all
  with f z five obtain v where v: "rnd (r * 5) = Fin v" "0 \<le> v" "v \<le> 5"
    using faithful_between by blast
  have "A \<le> A + v" "A + v \<le> A + 5" using v by simp_all
  with f A_in A5_in obtain w where w: "rnd (A + v) = Fin w" "A \<le> w" "w \<le> A + 5"
    using faithful_between by blast
  have "A - 5 / 2 \<le> w - 5 / 2" "w - 5 / 2 \<le> A + 5 / 2" using w by simp_all
  with f Alo_in Ahi_in obtain u where u: "rnd (w - 5 / 2) = Fin u" "A - 5 / 2 \<le> u" "u \<le> A + 5 / 2"
    using faithful_between by blast
  have m1: "num_mul rnd (Fin (5 / 2)) (Fin a) = Fin (5 / 2 * a)"
    by (simp only: num_mul.simps t1)
  have a1: "num_add rnd (Fin (5 / 2 * a)) (Fin 5) = Fin A"
    by (simp only: num_add.simps t2)
  have m2: "num_mul rnd (Fin r) (Fin 5) = Fin v"
    by (simp only: num_mul.simps v)
  have a2: "num_add rnd (Fin A) (Fin v) = Fin w"
    by (simp only: num_add.simps w)
  have "w + - (5 / 2) = w - 5 / 2" by simp
  then have s: "num_sub rnd (Fin w) (Fin (5 / 2)) = Fin u"
    by (simp only: num_sub_def num_neg.simps num_add.simps u)
  have "pt_y (newPoint rnd r i) = Fin u"
    unfolding newPoint_def Let_def x m1 a1 m2 a2 s by simp
  moreover have "\<bar>u - A\<bar> \<le> 5 / 2" using u(2,3) by linarith
  ultimately show ?thesis by (simp add: A_def a_def)
qed

lemma generated_xs:
  assumes "faithful rnd"
  shows "map pt_x (points (generateData rnd random st)) = xs20"
proof -
  have "map pt_x (points (generateData rnd random st))
      = map (\<lambda>i. pt_x (newPoint rnd (random i) i)) [0..<20]"
    by (simp add: generateData_def Let_def comp_def)
  also have "\<dots> = map (\<lambda>i. Fin (of_nat (Suc i))) [0..<20]"
    by (rule map_cong) (simp_all add: newPoint_x [OF assms])
  also have "\<dots> = map (\<lambda>k. Fin (of_nat k)) (map Suc [0..<20])"
    by (simp add: comp_def)
  also have "map Suc [0..<20] = [1..<21]" by (simp add: map_Suc_upt)
  finally show ?thesis by (simp add: xs20_def)
qed

lemma generated_points_small:
  assumes "faithful rnd" and "\<forall>i<20. 0 \<le> random i \<and> random i < 1"
    and "p \<in> set (points (generateData rnd random st))"
  shows "\<exists>x y. p = \<lparr>pt_x = Fin x, pt_y = Fin y\<rparr> \<and> \<bar>x\<bar> < 10 ^ 21 \<and> \<bar>y\<bar> < 10 ^ 21"
proof -
  from assms(3) obtain i where i: "i < 20" and p: "p = newPoint rnd (random i) i"
    by (auto simp: generateData_def Let_def)
  from assms(2) i have r: "0 \<le> random i" "random i < 1" by simp_all
  from newPoint_y [OF assms(1) i r] obtain y
    where y: "pt_y p = Fin y" "\<bar>y - (5 / 2 * of_nat (Suc i) + 5)\<bar> \<le> 5 / 2" unfolding p by blast
  have x: "pt_x p = Fin (of_nat (Suc i))" unfolding p by (rule newPoint_x [OF assms(1) i])
  define c :: rat where "c = of_nat (Suc i)"
  have c: "0 \<le> c" "c \<le> 20" using i by (simp_all add: c_def)
  have yb: "\<bar>y - (5 / 2 * c + 5)\<bar> \<le> 5 / 2" using y(2) by (simp add: c_def)
  have "\<bar>c\<bar> \<le> 20" using c by simp
  moreover have "\<bar>y\<bar> \<le> 60" using c yb by linarith
  moreover have "(60 :: rat) < 10 ^ 21" "(20 :: rat) < 10 ^ 21" by simp_all
  ultimately have "\<bar>of_nat (Suc i) :: rat\<bar> < 10 ^ 21" "\<bar>y\<bar> < 10 ^ 21"
    unfolding c_def by linarith+
  moreover have "p = \<lparr>pt_x = Fin (of_nat (Suc i)), pt_y = Fin y\<rparr>" using x y(1) by (cases p) simp
  ultimately show ?thesis by blast
qed

text \<open>
  C3. Every invocation of the data generator leaves a sample of exactly 20 points in the
  state, and their x values are the integers 1 to 20 in this order, whatever
  \<open>Math.random()\<close> returns.
\<close>

theorem generateData_xs:
  assumes "faithful rnd"
  shows "length (points (generateData rnd random st)) = 20
       \<and> map pt_x (points (generateData rnd random st)) = map (\<lambda>k. Fin (of_nat k)) [1..<21]"
proof -
  have "length (points (generateData rnd random st)) = 20"
    by (simp add: generateData_def Let_def)
  moreover have "map pt_x (points (generateData rnd random st)) = map (\<lambda>k. Fin (of_nat k)) [1..<21]"
    using generated_xs [OF assms, of random st] unfolding xs20_def .
  ultimately show ?thesis ..
qed

theorem generateData_xs_witness:
  "faithful Fin
   \<and> length (points (generateData Fin (\<lambda>i. 1 / 2) initial_component)) = 20
   \<and> map pt_x (points (generateData Fin (\<lambda>i. 1 / 2) initial_component))
       = map (\<lambda>k. Fin (of_nat k)) [1..<21]"
  using generateData_xs [OF faithful_exact, of "\<lambda>i. 1 / 2" initial_component]
  by (simp add: faithful_exact)

text \<open>
  C4. Every point \<open>(x, y)\<close> that the data generator produces from draws in \<open>[0, 1)\<close>
  is finite and satisfies \<open>|y - (2.5 x + 5)| \<le> 2.5\<close>.  This holds under every faithful
  rounding, so in binary64 arithmetic as in exact arithmetic: the bounds of each
  intermediate interval are binary64 values, and rounding does not cross them.
\<close>

theorem generateData_noise_bound:
  assumes "faithful rnd" and "\<forall>i<20. 0 \<le> random i \<and> random i < 1"
  shows "\<forall>p \<in> set (points (generateData rnd random st)).
           \<exists>x y. pt_x p = Fin x \<and> pt_y p = Fin y \<and> \<bar>y - (5 / 2 * x + 5)\<bar> \<le> 5 / 2"
proof
  fix p assume "p \<in> set (points (generateData rnd random st))"
  then obtain i where i: "i < 20" and p: "p = newPoint rnd (random i) i"
    by (auto simp: generateData_def Let_def)
  from assms(2) i have r: "0 \<le> random i" "random i < 1" by simp_all
  from newPoint_y [OF assms(1) i r] obtain y
    where "pt_y p = Fin y" "\<bar>y - (5 / 2 * of_nat (Suc i) + 5)\<bar> \<le> 5 / 2" unfolding p by blast
  moreover have "pt_x p = Fin (of_nat (Suc i))" unfolding p by (rule newPoint_x [OF assms(1) i])
  ultimately show "\<exists>x y. pt_x p = Fin x \<and> pt_y p = Fin y \<and> \<bar>y - (5 / 2 * x + 5)\<bar> \<le> 5 / 2"
    by blast
qed

theorem generateData_noise_bound_witness:
  "faithful Fin
   \<and> (\<exists>x y. pt_x (hd (points (generateData Fin (\<lambda>i. 1 / 2) initial_component))) = Fin x
          \<and> pt_y (hd (points (generateData Fin (\<lambda>i. 1 / 2) initial_component))) = Fin y
          \<and> \<bar>y - (5 / 2 * x + 5)\<bar> \<le> 5 / 2)"
proof -
  have r: "\<forall>i<20. 0 \<le> (1 / 2 :: rat) \<and> (1 / 2 :: rat) < 1" by simp
  have "points (generateData Fin (\<lambda>i. 1 / 2) initial_component) \<noteq> []"
    by (simp add: generateData_def)
  then have "hd (points (generateData Fin (\<lambda>i. 1 / 2) initial_component))
      \<in> set (points (generateData Fin (\<lambda>i. 1 / 2) initial_component))"
    by (rule hd_in_set)
  with generateData_noise_bound [OF faithful_exact r, of initial_component]
  show ?thesis using faithful_exact by blast
qed

section \<open>The tooltip\<close>

lemma digits_small: "n < 10 \<Longrightarrow> digits n = [digit_char n]"
  by (simp add: digits.simps)

lemma digits_large: "\<not> n < 10 \<Longrightarrow> digits n = digits (n div 10) @ [digit_char (n mod 10)]"
  by (subst digits.simps) simp

lemma length_digits_pos: "0 < length (digits n)"
  by (subst digits.simps) simp

lemma fixed_layout:
  "(let m = digits n;
        m = (if length m \<le> 2 then replicate (3 - length m) (CHR ''0'') @ m else m);
        k = length m
    in take (k - 2) m @ ''.'' @ drop (k - 2) m)
   = digits (n div 100) @ ''.'' @ [digit_char (n div 10 mod 10), digit_char (n mod 10)]"
proof -
  consider "n < 10" | "10 \<le> n" "n < 100" | "100 \<le> n" by linarith
  then show ?thesis
  proof cases
    case 1
    then have "digits n = [digit_char n]" "digits (n div 100) = [digit_char 0]"
      "n div 10 mod 10 = 0" "n mod 10 = n"
      by (simp_all add: digits_small)
    then show ?thesis by (simp add: Let_def digit_char_def)
  next
    case 2
    then have "n div 10 < 10" by simp
    with 2 have "digits n = [digit_char (n div 10), digit_char (n mod 10)]"
      "digits (n div 100) = [digit_char 0]" "n div 10 mod 10 = n div 10"
      by (simp_all add: digits_large digits_small)
    then show ?thesis by (simp add: Let_def digit_char_def)
  next
    case 3
    then have a: "\<not> n < 10" and b: "\<not> n div 10 < 10" by simp_all
    have c: "n div 10 div 10 = n div 100" by (simp add: div_mult2_eq)
    have "digits n = digits (n div 100) @ [digit_char (n div 10 mod 10), digit_char (n mod 10)]"
      by (simp add: digits_large [OF a] digits_large [OF b] c)
    moreover have "0 < length (digits (n div 100))" by (rule length_digits_pos)
    ultimately show ?thesis by (simp add: Let_def)
  qed
qed

lemma toFixed2_two_decimals:
  assumes "\<bar>x\<bar> < 10 ^ 21"
  shows "toFixed2 toString (Fin x) = two_decimals x"
proof -
  have "\<not> 10 ^ 21 \<le> \<bar>x\<bar>" using assms by simp
  then show ?thesis
    unfolding toFixed2_def two_decimals_def number.case Let_def if_False
    using fixed_layout [of "nat \<lfloor>\<bar>x\<bar> * 100 + 1 / 2\<rfloor>", unfolded Let_def] by simp
qed

text \<open>
  C8. For every circle of the scene whose point has finite coordinates (of magnitude below
  \<open>10\<^sup>2\<^sup>1\<close>, as every generated point has), the \<open>mouseenter\<close> event sets the
  tooltip to visible, with the position of the pointer and with the coordinates of the
  point bound to this circle, and the overlay then shows the two coordinates with two
  decimal places; the \<open>mouseleave\<close> event sets the tooltip to hidden, with no data
  coordinates, and no overlay is rendered.
\<close>

theorem tooltip_hover:
  assumes "svg a = Some sc" and "i < length (circles sc)"
    and "circles sc ! i = \<lparr>pt_x = Fin x, pt_y = Fin y\<rparr>"
    and "\<bar>x\<bar> < 10 ^ 21" and "\<bar>y\<bar> < 10 ^ 21"
  shows "step rnd (MouseEnter i ev) a
           = Inr (a\<lparr>hooks := (hooks a)\<lparr>tooltip := \<lparr>visible = True, tip_x = clientX ev, tip_y = clientY ev,
                                                    dataX = Some (Fin x), dataY = Some (Fin y)\<rparr>\<rparr>\<rparr>)
       \<and> tooltip_overlay rnd toString (tooltip (hooks (on_circle i (mouseenter ev) a)))
           = Some \<lparr>ov_top = num_add rnd (clientY ev) (Fin 10),
                   ov_left = num_add rnd (clientX ev) (Fin 10),
                   ov_X = ''X: '' @ two_decimals x, ov_Y = ''Y: '' @ two_decimals y\<rparr>
       \<and> step rnd (MouseLeave i) a
           = Inr (a\<lparr>hooks := (hooks a)\<lparr>tooltip := \<lparr>visible = False, tip_x = Fin 0, tip_y = Fin 0,
                                                    dataX = None, dataY = None\<rparr>\<rparr>\<rparr>)
       \<and> tooltip_overlay rnd toString (tooltip (hooks (on_circle i (\<lambda>d. mouseleave) a))) = None"
  using assms
  by (simp add: on_circle_def mouseenter_def mouseleave_def tooltip_overlay_def
      toFixed2_two_decimals)

theorem tooltip_hover_witness:
  "step Fin (MouseEnter 1 \<lparr>clientX = Fin 300, clientY = Fin 200\<rparr>) hover_app
     = Inr (hover_app\<lparr>hooks := (hooks hover_app)\<lparr>tooltip :=
          \<lparr>visible = True, tip_x = Fin 300, tip_y = Fin 200,
           dataX = Some (Fin 2), dataY = Some (Fin (1249 / 100))\<rparr>\<rparr>\<rparr>)
   \<and> tooltip_overlay Fin (\<lambda>q. []) (tooltip (hooks (on_circle 1
         (mouseenter \<lparr>clientX = Fin 300, clientY = Fin 200\<rparr>) hover_app)))
     = Some \<lparr>ov_top = Fin 210, ov_left = Fin 310, ov_X = ''X: 2.00'', ov_Y = ''Y: 12.49''\<rparr>"
proof -
  have s: "svg hover_app = Some \<lparr>circles = sample [(1, 15 / 2), (2, 1249 / 100)], line_path = 0\<rparr>"
    by (simp add: hover_app_def)
  have i: "1 < length (circles \<lparr>circles = sample [(1, 15 / 2), (2, 1249 / 100)], line_path = 0\<rparr>)"
    by (simp add: sample_def)
  have c: "circles \<lparr>circles = sample [(1, 15 / 2), (2, 1249 / 100)], line_path = 0\<rparr> ! 1
      = \<lparr>pt_x = Fin 2, pt_y = Fin (1249 / 100)\<rparr>"
    by (simp add: sample_def)
  have x: "\<bar>2 :: rat\<bar> < 10 ^ 21" and y: "\<bar>1249 / 100 :: rat\<bar> < 10 ^ 21" by simp_all
  have d2: "two_decimals 2 = ''2.00''"
    by code_simp
  have d12: "two_decimals (1249 / 100) = ''12.49''"
    by code_simp
  have sel: "clientX \<lparr>clientX = Fin 300, clientY = Fin 200\<rparr> = Fin 300"
    "clientY \<lparr>clientX = Fin 300, clientY = Fin 200\<rparr> = Fin 200" by simp_all
  note t = tooltip_hover [OF s i c x y, of Fin "\<lparr>clientX = Fin 300, clientY = Fin 200\<rparr>" "\<lambda>q. []",
      unfolded sel]
  from t have A: "step Fin (MouseEnter 1 \<lparr>clientX = Fin 300, clientY = Fin 200\<rparr>) hover_app
     = Inr (hover_app\<lparr>hooks := (hooks hover_app)\<lparr>tooltip :=
          \<lparr>visible = True, tip_x = Fin 300, tip_y = Fin 200,
           dataX = Some (Fin 2), dataY = Some (Fin (1249 / 100))\<rparr>\<rparr>\<rparr>)"
    by (rule conjunct1)
  from conjunct1 [OF conjunct2 [OF t]] have "tooltip_overlay Fin (\<lambda>q. []) (tooltip (hooks (on_circle 1
         (mouseenter \<lparr>clientX = Fin 300, clientY = Fin 200\<rparr>) hover_app)))
     = Some \<lparr>ov_top = num_add Fin (Fin 200) (Fin 10), ov_left = num_add Fin (Fin 300) (Fin 10),
             ov_X = ''X: '' @ two_decimals 2, ov_Y = ''Y: '' @ two_decimals (1249 / 100)\<rparr>" .
  then have B: "tooltip_overlay Fin (\<lambda>q. []) (tooltip (hooks (on_circle 1
         (mouseenter \<lparr>clientX = Fin 300, clientY = Fin 200\<rparr>) hover_app)))
     = Some \<lparr>ov_top = Fin 210, ov_left = Fin 310, ov_X = ''X: 2.00'', ov_Y = ''Y: 12.49''\<rparr>"
    unfolding d2 d12 by simp
  from A B show ?thesis by (rule conjI)
qed

section \<open>The export\<close>

text \<open>
  C7, as the code has it. \<open>downloadPNG\<close> returns nothing in every case.  When the
  \<open>svg\<close> element is not mounted, or when the capture is not fulfilled, the state of the
  page is unchanged: no file and no notice of a failure.  Otherwise, also for a scene that
  is empty, the file \<open>chart.png\<close> with the captured data URL is handed to the browser.
\<close>

theorem downloadPNG_silent:
  "downloadPNG toPng a =
     ((), if mounted a \<and> toPng (svg a) \<noteq> None
          then a\<lparr>downloads := downloads a @ [\<lparr>download = ''chart.png'', href = the (toPng (svg a))\<rparr>]\<rparr>
          else a)"
  by (auto simp: downloadPNG_def split: option.splits)

text \<open>
  C7 as stated fails: on the page that is not mounted, and on the mounted page with the
  empty scene whose capture fails, \<open>downloadPNG\<close> returns the same nothing as after a
  success and leaves no trace of a failure in the state.
\<close>

theorem downloadPNG_unrendered_counterexample:
  "downloadPNG (\<lambda>s. Some ''data:image/png;base64,AAAA'') initial_app = ((), initial_app)
   \<and> downloadPNG (\<lambda>s. None) (initial_app\<lparr>mounted := True\<rparr>) = ((), initial_app\<lparr>mounted := True\<rparr>)"
  by (simp add: downloadPNG_def initial_app_def)

section \<open>The chart effect on a generated sample\<close>























section \<open>Callbacks of a replaced scene\<close>






end
